theory Spec2Isabelle
  imports Main "HOL-Library.Word" "HOL-Library.Sublist"
begin

section \<open>Tag colours: frontend/src/utils/tagColors.js\<close>

text \<open>
  A JavaScript string is a sequence of UTF-16 code units; \<open>charCodeAt\<close> reads one of
  them as a number between 0 and 65535. JavaScript numbers are doubles; every value
  that occurs in \<open>hashString\<close> is an integer far below \<open>2 ^ 53\<close>
  (lemma \<open>hash_step_exact\<close>), so \<open>int\<close> computes what the doubles compute.
\<close>

type_synonym js_string = "16 word list"

record tag_color =
  bg :: string
  text_color :: string

definition TAG_COLORS :: "tag_color list" where
  "TAG_COLORS =
    [\<lparr>bg = ''#e8f4f8'', text_color = ''#2c3e50''\<rparr>,
     \<lparr>bg = ''#f0e8f8'', text_color = ''#2c3e50''\<rparr>,
     \<lparr>bg = ''#e8f8f0'', text_color = ''#2c3e50''\<rparr>,
     \<lparr>bg = ''#f8f0e8'', text_color = ''#2c3e50''\<rparr>,
     \<lparr>bg = ''#f8e8f0'', text_color = ''#2c3e50''\<rparr>,
     \<lparr>bg = ''#f8f8e8'', text_color = ''#2c3e50''\<rparr>,
     \<lparr>bg = ''#e8f0f8'', text_color = ''#2c3e50''\<rparr>,
     \<lparr>bg = ''#f0f8e8'', text_color = ''#2c3e50''\<rparr>,
     \<lparr>bg = ''#f8e8e8'', text_color = ''#2c3e50''\<rparr>,
     \<lparr>bg = ''#e8e8f8'', text_color = ''#2c3e50''\<rparr>]"

definition ToInt32 :: "int \<Rightarrow> int" where
  \<comment> \<open>ECMAScript ToInt32 on an integral number: reduce modulo \<open>2 ^ 32\<close> into the signed range.\<close>
  "ToInt32 x = (let m = x mod 2 ^ 32 in if m \<ge> 2 ^ 31 then m - 2 ^ 32 else m)"

definition js_shl :: "int \<Rightarrow> nat \<Rightarrow> int" where
  \<comment> \<open>\<open>a << n\<close>: the left operand as an int32, shifted by \<open>n mod 32\<close>, the result as an int32.\<close>
  "js_shl a n = ToInt32 (ToInt32 a * 2 ^ (n mod 32))"

definition js_and :: "int \<Rightarrow> int \<Rightarrow> int" where
  \<comment> \<open>\<open>a & b\<close>: both operands as int32, combined bitwise.\<close>
  "js_and a b = and (ToInt32 a) (ToInt32 b)"

definition js_rem :: "int \<Rightarrow> int \<Rightarrow> int" where
  \<comment> \<open>\<open>a % b\<close> on integers with \<open>b \<noteq> 0\<close>: the sign of the result is the sign of \<open>a\<close>.\<close>
  "js_rem a b = sgn a * (\<bar>a\<bar> mod \<bar>b\<bar>)"

definition js_index :: "'a list \<Rightarrow> int \<Rightarrow> 'a option" where
  \<comment> \<open>\<open>xs[i]\<close>: \<open>None\<close> stands for \<open>undefined\<close>, the value of an index outside the array.\<close>
  "js_index xs i = (if 0 \<le> i \<and> i < int (length xs) then Some (xs ! nat i) else None)"

definition hash_step :: "int \<Rightarrow> 16 word \<Rightarrow> int" where
  \<comment> \<open>The body of the loop: \<open>hash = ((hash << 5) - hash) + char; hash = hash & hash\<close>.\<close>
  "hash_step hash c =
     (let char = uint c;
          hash1 = (js_shl hash 5 - hash) + char
      in js_and hash1 hash1)"

fun hash_loop :: "int \<Rightarrow> js_string \<Rightarrow> int" where
  "hash_loop hash [] = hash"
| "hash_loop hash (c # cs) = hash_loop (hash_step hash c) cs"

definition hashString :: "js_string \<Rightarrow> int" where
  "hashString str = \<bar>hash_loop 0 str\<bar>"

definition getTagColor :: "js_string \<Rightarrow> tag_color option" where
  "getTagColor tagName =
     (let hash = hashString tagName;
          colorIndex = js_rem hash (int (length TAG_COLORS))
      in js_index TAG_COLORS colorIndex)"

definition int32 :: "int \<Rightarrow> bool" where
  "int32 x \<longleftrightarrow> - (2 ^ 31) \<le> x \<and> x < 2 ^ 31"

section \<open>The API client: frontend/src/api.js\<close>

text \<open>
  JSON values as \<open>response.json()\<close> delivers them. Numbers are restricted to the
  integers: the client never computes with a number, it only tests one for truthiness.
\<close>

datatype json =
    JNull
  | JBool bool
  | JNum int
  | JStr string
  | JArr "json list"
  | JObj "(string \<times> json) list"

text \<open>
  What an \<open>async\<close> function rejects with. \<open>Error v\<close> is \<open>new Error(v)\<close>, whose message
  is \<open>v\<close> when \<open>v\<close> is a string; \<open>TypeError\<close> is a failed \<open>fetch\<close> or a property read
  on \<open>null\<close>; \<open>SyntaxError\<close> is \<open>response.json()\<close> on a body that is not JSON;
  \<open>URIError\<close> is \<open>encodeURIComponent\<close> on a malformed string.
\<close>

datatype js_error = TypeError | SyntaxError | URIError | Error json

datatype request_body = NoBody | FormData "(string \<times> string) list" | JsonText json

record request =
  url :: string
  http_method :: string
  headers :: "(string \<times> string) list"
  body :: request_body

record response =
  status :: nat
  body_json :: "json option"
    \<comment> \<open>the body parsed as JSON; \<open>None\<close> when the body is not JSON text\<close>

record env =
  API_BASE :: string
  fetch :: "request \<Rightarrow> js_error + response"
  encodeURIComponent :: "string \<Rightarrow> js_error + string"

definition ok :: "response \<Rightarrow> bool" where
  \<comment> \<open>\<open>response.ok\<close>: the status is in the range 200 to 299.\<close>
  "ok r \<longleftrightarrow> 200 \<le> status r \<and> status r \<le> 299"

definition response_json :: "response \<Rightarrow> js_error + json" where
  \<comment> \<open>\<open>response.json()\<close>\<close>
  "response_json r = (case body_json r of None \<Rightarrow> Inl SyntaxError | Some v \<Rightarrow> Inr v)"

fun get_detail :: "json \<Rightarrow> js_error + json option" where
  \<comment> \<open>\<open>error.detail\<close>; \<open>None\<close> is \<open>undefined\<close>\<close>
  "get_detail JNull = Inl TypeError"
| "get_detail (JObj kvs) = Inr (map_of kvs ''detail'')"
| "get_detail _ = Inr None"

fun truthy :: "json \<Rightarrow> bool" where
  "truthy JNull = False"
| "truthy (JBool b) = b"
| "truthy (JNum n) = (n \<noteq> 0)"
| "truthy (JStr s) = (s \<noteq> [])"
| "truthy (JArr _) = True"
| "truthy (JObj _) = True"

definition js_or :: "json option \<Rightarrow> json \<Rightarrow> json" where
  \<comment> \<open>\<open>a || b\<close>, the left operand possibly \<open>undefined\<close>\<close>
  "js_or a b = (case a of None \<Rightarrow> b | Some v \<Rightarrow> if truthy v then v else b)"

definition uploadDocument_request :: "env \<Rightarrow> string \<Rightarrow> request" where
  "uploadDocument_request e file =
     \<lparr>url = API_BASE e @ ''/documents'', http_method = ''POST'', headers = [],
      body = FormData [(''file'', file)]\<rparr>"

definition uploadDocument :: "env \<Rightarrow> string \<Rightarrow> js_error + json" where
  "uploadDocument e file =
     (case fetch e (uploadDocument_request e file) of
        Inl err \<Rightarrow> Inl err
      | Inr response \<Rightarrow>
          if \<not> ok response then
            (case response_json response of
               Inl err \<Rightarrow> Inl err
             | Inr error \<Rightarrow>
                 (case get_detail error of
                    Inl err \<Rightarrow> Inl err
                  | Inr detail \<Rightarrow> Inl (Error (js_or detail (JStr ''Upload failed'')))))
          else response_json response)"

definition getDocuments_request :: "env \<Rightarrow> request" where
  "getDocuments_request e =
     \<lparr>url = API_BASE e @ ''/documents'', http_method = ''GET'', headers = [], body = NoBody\<rparr>"

definition getDocuments :: "env \<Rightarrow> js_error + json" where
  "getDocuments e =
     (case fetch e (getDocuments_request e) of
        Inl err \<Rightarrow> Inl err
      | Inr response \<Rightarrow> response_json response)"

definition getDocument_request :: "env \<Rightarrow> string \<Rightarrow> request" where
  "getDocument_request e id' =
     \<lparr>url = API_BASE e @ ''/documents/'' @ id', http_method = ''GET'', headers = [], body = NoBody\<rparr>"

definition getDocument :: "env \<Rightarrow> string \<Rightarrow> js_error + json" where
  "getDocument e id' =
     (case fetch e (getDocument_request e id') of
        Inl err \<Rightarrow> Inl err
      | Inr response \<Rightarrow> response_json response)"

definition deleteDocument_request :: "env \<Rightarrow> string \<Rightarrow> request" where
  "deleteDocument_request e id' =
     \<lparr>url = API_BASE e @ ''/documents/'' @ id', http_method = ''DELETE'', headers = [], body = NoBody\<rparr>"

definition deleteDocument :: "env \<Rightarrow> string \<Rightarrow> js_error + json" where
  "deleteDocument e id' =
     (case fetch e (deleteDocument_request e id') of
        Inl err \<Rightarrow> Inl err
      | Inr response \<Rightarrow> response_json response)"

definition searchDocuments_request :: "env \<Rightarrow> string \<Rightarrow> request" where
  "searchDocuments_request e encoded =
     \<lparr>url = API_BASE e @ ''/search?q='' @ encoded, http_method = ''GET'', headers = [], body = NoBody\<rparr>"

definition searchDocuments :: "env \<Rightarrow> string \<Rightarrow> js_error + json" where
  "searchDocuments e query =
     (case encodeURIComponent e query of
        Inl err \<Rightarrow> Inl err
      | Inr encoded \<Rightarrow>
          (case fetch e (searchDocuments_request e encoded) of
             Inl err \<Rightarrow> Inl err
           | Inr response \<Rightarrow> response_json response))"

definition getTags_request :: "env \<Rightarrow> request" where
  "getTags_request e =
     \<lparr>url = API_BASE e @ ''/tags'', http_method = ''GET'', headers = [], body = NoBody\<rparr>"

definition getTags :: "env \<Rightarrow> js_error + json" where
  "getTags e =
     (case fetch e (getTags_request e) of
        Inl err \<Rightarrow> Inl err
      | Inr response \<Rightarrow> response_json response)"

definition addTagsToDocument_request :: "env \<Rightarrow> string \<Rightarrow> string list \<Rightarrow> request" where
  "addTagsToDocument_request e documentId tagNames =
     \<lparr>url = API_BASE e @ ''/documents/'' @ documentId @ ''/tags'', http_method = ''POST'',
      headers = [(''Content-Type'', ''application/json'')],
      body = JsonText (JObj [(''tag_names'', JArr (map JStr tagNames))])\<rparr>"

definition addTagsToDocument :: "env \<Rightarrow> string \<Rightarrow> string list \<Rightarrow> js_error + json" where
  "addTagsToDocument e documentId tagNames =
     (case fetch e (addTagsToDocument_request e documentId tagNames) of
        Inl err \<Rightarrow> Inl err
      | Inr response \<Rightarrow> response_json response)"

definition removeTagFromDocument_request :: "env \<Rightarrow> string \<Rightarrow> string \<Rightarrow> request" where
  "removeTagFromDocument_request e documentId tagId =
     \<lparr>url = API_BASE e @ ''/documents/'' @ documentId @ ''/tags/'' @ tagId,
      http_method = ''DELETE'', headers = [], body = NoBody\<rparr>"

definition removeTagFromDocument :: "env \<Rightarrow> string \<Rightarrow> string \<Rightarrow> js_error + json" where
  "removeTagFromDocument e documentId tagId =
     (case fetch e (removeTagFromDocument_request e documentId tagId) of
        Inl err \<Rightarrow> Inl err
      | Inr response \<Rightarrow> response_json response)"

text \<open>
  A backend that answers every request with 404 and the body
  \<open>{"detail": "Document not found"}\<close>, and variations of it used below.
\<close>

definition answer_all :: "response \<Rightarrow> env" where
  "answer_all r =
     \<lparr>API_BASE = ''http://localhost:8000'', fetch = (\<lambda>_. Inr r),
      encodeURIComponent = (\<lambda>s. Inr s)\<rparr>"

definition not_found :: response where
  "not_found = \<lparr>status = 404, body_json = Some (JObj [(''detail'', JStr ''Document not found'')])\<rparr>"

section \<open>The backend: strings\<close>

text \<open>
  Strings of the backend are modelled as \<open>string\<close> with ASCII case mapping: Python's
  \<open>str.lower\<close> and PostgreSQL's \<open>ILIKE\<close> agree with it on ASCII text.
\<close>

definition lower_char :: "char \<Rightarrow> char" where
  "lower_char c =
     (let n = (of_char c :: nat) in if 65 \<le> n \<and> n \<le> 90 then char_of (n + 32) else c)"

definition lower :: "string \<Rightarrow> string" where
  "lower s = map lower_char s"

definition str_in :: "string \<Rightarrow> string \<Rightarrow> bool" where
  \<comment> \<open>Python's \<open>sub in s\<close> on strings: \<open>sub\<close> occurs in \<open>s\<close> as a contiguous run.\<close>
  "str_in sub s = sublist sub s"

definition backslash :: char where
  "backslash = CHR 0x5C"

section \<open>The backend: upload validation and extraction errors\<close>

text \<open>
  The upload handler of \<open>backend/app/routes/documents.py\<close>, as the findings report
  quotes it (section 4 of FINDINGS.md): the checks on the file name, the extension and
  the size, and the handling of a failed extraction. \<open>Path(...).suffix\<close>,
  \<open>Path(...).name\<close>, the path the upload is stored under and the extraction routine are
  collaborators and are parameters of the model.
\<close>

datatype http_error =
    HTTPException nat string  \<comment> \<open>status code and detail\<close>
  | Unhandled string  \<comment> \<open>any other exception: a 500 response\<close>

datatype io_event = WriteFile string | ExtractText string | RemoveFile string

record disk =
  files :: "string \<rightharpoonup> string"  \<comment> \<open>path to contents\<close>
  io_log :: "io_event list"  \<comment> \<open>what the handler did, oldest first\<close>

record upload_file =
  filename :: "string option"
  content :: string

record collaborators =
  path_suffix :: "string \<Rightarrow> string"  \<comment> \<open>\<open>Path(s).suffix\<close>\<close>
  path_name :: "string \<Rightarrow> string"  \<comment> \<open>\<open>Path(s).name\<close>\<close>
  file_path_for :: "string \<Rightarrow> string"  \<comment> \<open>the path for a sanitized name\<close>
  extract_text :: "string \<Rightarrow> string + string \<times> nat"
    \<comment> \<open>the file's bytes to the text of an exception, or to the text and the page count\<close>

definition MAX_FILE_SIZE :: nat where
  "MAX_FILE_SIZE = 50 * 1024 * 1024"

definition ALLOWED_EXTENSIONS :: "string set" where
  "ALLOWED_EXTENSIONS = {''.pdf''}"

definition write_file :: "string \<Rightarrow> string \<Rightarrow> disk \<Rightarrow> disk" where
  \<comment> \<open>Modelled from the spec: the write of the upload to disk, which the findings report
     does not quote. Section 4.2 of the spec places it after validation (a rejected
     upload writes no file) and before extraction, which reads the stored file.\<close>
  "write_file path bytes d =
     d\<lparr>files := (files d)(path \<mapsto> bytes), io_log := io_log d @ [WriteFile path]\<rparr>"

definition extract_text_from_pdf ::
  "collaborators \<Rightarrow> string \<Rightarrow> disk \<Rightarrow> (string + string \<times> nat) \<times> disk" where
  "extract_text_from_pdf c path d =
     (let d' = d\<lparr>io_log := io_log d @ [ExtractText path]\<rparr>
      in case files d path of
           None \<Rightarrow> (Inl ''no such file'', d')
         | Some bytes \<Rightarrow> (extract_text c bytes, d'))"

definition os_remove :: "string \<Rightarrow> disk \<Rightarrow> (string + unit) \<times> disk" where
  \<comment> \<open>\<open>os.remove\<close> raises when the file is missing.\<close>
  "os_remove path d =
     (case files d path of
        None \<Rightarrow> (Inl ''FileNotFoundError'', d)
      | Some _ \<Rightarrow> (Inr (), d\<lparr>files := (files d)(path := None), io_log := io_log d @ [RemoveFile path]\<rparr>))"

definition upload_document ::
  "collaborators \<Rightarrow> upload_file \<Rightarrow> disk \<Rightarrow> (http_error + string \<times> nat) \<times> disk" where
  "upload_document c file d =
     (case filename file of
        None \<Rightarrow> (Inl (HTTPException 400 ''No filename provided''), d)
      | Some fname \<Rightarrow>
          if fname = [] then (Inl (HTTPException 400 ''No filename provided''), d)
          else
            let file_ext = lower (path_suffix c fname) in
            if file_ext \<notin> ALLOWED_EXTENSIONS
            then (Inl (HTTPException 400 ''Only PDF files are allowed''), d)
            else
              let safe_filename = path_name c fname in
              if str_in ''..'' safe_filename \<or> str_in ''/'' safe_filename
                 \<or> str_in [backslash] safe_filename
              then (Inl (HTTPException 400 ''Invalid filename''), d)
              else if length (content file) > MAX_FILE_SIZE
              then (Inl (HTTPException 413 ''File size exceeds 52428800 bytes''), d)
              else
                let file_path = file_path_for c safe_filename;
                    d1 = write_file file_path (content file) d
                in case extract_text_from_pdf c file_path d1 of
                     (Inl e, d2) \<Rightarrow>
                       (case os_remove file_path d2 of
                          (Inl e', d3) \<Rightarrow> (Inl (Unhandled e'), d3)
                        | (Inr _, d3) \<Rightarrow>
                            (Inl (HTTPException 400 (''Failed to process PDF: '' @ e)), d3))
                   | (Inr (text_content, page_count), d2) \<Rightarrow>
                       (Inr (text_content, page_count), d2))"

text \<open>
  The POSIX flavour of \<open>pathlib\<close>, for running the handler on concrete names: a path is
  split at \<open>/\<close>, empty components and \<open>.\<close> are dropped, the name is the last component,
  and the suffix starts at the last dot of the name unless that dot is its first or
  its last character.
\<close>

fun split_slash :: "string \<Rightarrow> string \<Rightarrow> string list" where
  "split_slash acc [] = [rev acc]"
| "split_slash acc (c # cs) =
     (if c = CHR ''/'' then rev acc # split_slash [] cs else split_slash (c # acc) cs)"

definition posix_name :: "string \<Rightarrow> string" where
  "posix_name s =
     (case filter (\<lambda>p. p \<noteq> [] \<and> p \<noteq> ''.'') (split_slash [] s) of
        [] \<Rightarrow> []
      | ps \<Rightarrow> last ps)"

definition posix_suffix :: "string \<Rightarrow> string" where
  "posix_suffix s =
     (let name = posix_name s;
          after = takeWhile (\<lambda>c. c \<noteq> CHR ''.'') (rev name)
      in if length after = length name \<or> after = [] \<or> Suc (length after) = length name
         then [] else CHR ''.'' # rev after)"

definition posix :: "(string \<Rightarrow> string + string \<times> nat) \<Rightarrow> collaborators" where
  "posix ex =
     \<lparr>path_suffix = posix_suffix, path_name = posix_name,
      file_path_for = (\<lambda>n. ''/tmp/docproc_uploads/'' @ n), extract_text = ex\<rparr>"

definition empty_disk :: disk where
  "empty_disk = \<lparr>files = Map.empty, io_log = []\<rparr>"

definition broken_pdf :: "string \<Rightarrow> string + string \<times> nat" where
  \<comment> \<open>an extraction routine that fails on every file\<close>
  "broken_pdf bytes = Inl ''cannot open broken document''"

section \<open>The backend: stored data\<close>

text \<open>
  The tables of \<open>backend/app/models.py\<close>: documents with the columns the frontend reads,
  tags, and the association table \<open>document_tags\<close> that the findings report quotes. A
  table is the list of its rows in the order in which the storage engine scans them.
  \<open>queries\<close> counts the statements sent to the database.
\<close>

datatype proc_status = pending | processed | failed

record document =
  d_id :: nat
  d_filename :: string
  d_file_path :: string
  d_file_size :: nat
  d_page_count :: "nat option"
  d_content :: "string option"
  d_status :: proc_status
  d_created_at :: nat

record tag =
  t_id :: nat
  t_name :: string

record database =
  documents :: "document list"
  tags :: "tag list"
  document_tags :: "(nat \<times> nat) list"  \<comment> \<open>pairs of document id and tag id\<close>
  next_document_id :: nat
  next_tag_id :: nat
  queries :: nat

datatype db_error =
    ProgrammingError  \<comment> \<open>a statement the database does not accept\<close>
  | DataError string  \<comment> \<open>a value the database rejects\<close>

section \<open>The backend: search\<close>

text \<open>
  \<open>backend/app/routes/search.py\<close> after the fix quoted in section 1 of FINDINGS.md: a
  constant statement with one bound parameter, \<open>%q%\<close>. PostgreSQL reads the parameter
  as a \<open>LIKE\<close> pattern: \<open>%\<close> stands for any run of characters, \<open>_\<close> for any one
  character, and a backslash makes the next character literal; a pattern that ends
  with a lone backslash is an error. \<open>ILIKE\<close> compares without regard to case.
\<close>

datatype like_token = AnySeq | AnyOne | Lit char

fun like_parse :: "string \<Rightarrow> like_token list option" where
  "like_parse [] = Some []"
| "like_parse [c] =
     (if c = backslash then None
      else if c = CHR ''%'' then Some [AnySeq]
      else if c = CHR ''_'' then Some [AnyOne]
      else Some [Lit c])"
| "like_parse (c # e # es) =
     (if c = backslash then map_option ((#) (Lit e)) (like_parse es)
      else if c = CHR ''%'' then map_option ((#) AnySeq) (like_parse (e # es))
      else if c = CHR ''_'' then map_option ((#) AnyOne) (like_parse (e # es))
      else map_option ((#) (Lit c)) (like_parse (e # es)))"

fun like_match :: "like_token list \<Rightarrow> string \<Rightarrow> bool" where
  "like_match [] s = (s = [])"
| "like_match (AnySeq # ts) [] = like_match ts []"
| "like_match (AnySeq # ts) (x # s) = (like_match ts (x # s) \<or> like_match (AnySeq # ts) s)"
| "like_match (AnyOne # ts) [] = False"
| "like_match (AnyOne # ts) (x # s) = like_match ts s"
| "like_match (Lit c # ts) [] = False"
| "like_match (Lit c # ts) (x # s) = (x = c \<and> like_match ts s)"

definition ilike :: "string \<Rightarrow> string \<Rightarrow> db_error + bool" where
  \<comment> \<open>\<open>s ILIKE pattern\<close>\<close>
  "ilike s pattern =
     (case like_parse (lower pattern) of
        None \<Rightarrow> Inl (DataError ''LIKE pattern must not end with escape character'')
      | Some ts \<Rightarrow> Inr (like_match ts (lower s)))"

definition SEARCH_SQL :: string where
  "SEARCH_SQL = ''SELECT id, filename, content FROM documents WHERE content ILIKE :search_term''"

definition search_statement :: "string \<Rightarrow> string \<times> (string \<times> string) list" where
  \<comment> \<open>the text of the statement and its bound parameters\<close>
  "search_statement q = (SEARCH_SQL, [(''search_term'', ''%'' @ q @ ''%'')])"

fun select_ilike :: "string \<Rightarrow> document list \<Rightarrow> db_error + (nat \<times> string \<times> string) list" where
  \<comment> \<open>the rows whose content is not null and matches; a null content matches nothing\<close>
  "select_ilike pattern [] = Inr []"
| "select_ilike pattern (d # ds) =
     (case d_content d of
        None \<Rightarrow> select_ilike pattern ds
      | Some c \<Rightarrow>
          (case ilike c pattern of
             Inl err \<Rightarrow> Inl err
           | Inr m \<Rightarrow>
               (case select_ilike pattern ds of
                  Inl err \<Rightarrow> Inl err
                | Inr rows \<Rightarrow> Inr (if m then (d_id d, d_filename d, c) # rows else rows))))"

definition db_execute ::
  "string \<times> (string \<times> string) list \<Rightarrow> database
     \<Rightarrow> (db_error + (nat \<times> string \<times> string) list) \<times> database" where
  \<comment> \<open>The database runs the one textual statement the backend sends; the bound
     parameter is a value and never part of the statement.\<close>
  "db_execute stmt db =
     (let db' = db\<lparr>queries := queries db + 1\<rparr>
      in if fst stmt = SEARCH_SQL then
           (case map_of (snd stmt) ''search_term'' of
              None \<Rightarrow> (Inl ProgrammingError, db')
            | Some pattern \<Rightarrow> (select_ilike pattern (documents db), db'))
         else (Inl ProgrammingError, db'))"

definition search_documents ::
  "string \<Rightarrow> database \<Rightarrow> (db_error + (nat \<times> string \<times> string) list) \<times> database" where
  "search_documents q db = db_execute (search_statement q) db"

definition contains_ci :: "string \<Rightarrow> string \<Rightarrow> bool" where
  \<comment> \<open>\<open>q\<close> occurs in \<open>c\<close> as a substring, ignoring case\<close>
  "contains_ci c q = sublist (lower q) (lower c)"

definition like_plain :: "string \<Rightarrow> bool" where
  \<comment> \<open>no character of \<open>q\<close> has a meaning in a \<open>LIKE\<close> pattern\<close>
  "like_plain q = (CHR ''%'' \<notin> set q \<and> CHR ''_'' \<notin> set q \<and> backslash \<notin> set q)"

definition doc :: "nat \<Rightarrow> string \<Rightarrow> string option \<Rightarrow> nat \<Rightarrow> document" where
  \<comment> \<open>a processed document, for running the queries on concrete tables\<close>
  "doc i name c t =
     \<lparr>d_id = i, d_filename = name, d_file_path = ''/tmp/docproc_uploads/'' @ name,
      d_file_size = 10240, d_page_count = Some 2, d_content = c, d_status = processed,
      d_created_at = t\<rparr>"

definition db_of :: "document list \<Rightarrow> database" where
  "db_of ds =
     \<lparr>documents = ds, tags = [], document_tags = [], next_document_id = Suc (length ds),
      next_tag_id = 1, queries = 0\<rparr>"

definition substring_rows :: "string \<Rightarrow> document list \<Rightarrow> (nat \<times> string \<times> string) list" where
  \<comment> \<open>what the spec asks of search: the rows whose content contains \<open>q\<close>, ignoring case\<close>
  "substring_rows q ds =
     concat (map (\<lambda>d. case d_content d of
                          None \<Rightarrow> []
                        | Some c \<Rightarrow> if contains_ci c q then [(d_id d, d_filename d, c)] else []) ds)"

section \<open>The backend: listing documents\<close>

text \<open>
  \<open>list_documents\<close> of \<open>backend/app/routes/documents.py\<close> after the fixes quoted in
  sections 5 and 7 of FINDINGS.md: \<open>skip: int = 0, limit: int = 100\<close>, the statement
  \<open>select(Document).offset(skip).limit(limit)\<close> with no \<open>ORDER BY\<close>, and the related
  rows loaded with \<open>selectinload\<close>, one statement for the whole page per relation.
  PostgreSQL rejects a negative \<open>OFFSET\<close> or \<open>LIMIT\<close>. The relation
  \<open>processing_status\<close> is read off the documents themselves.
\<close>

definition has_tag_named :: "database \<Rightarrow> string \<Rightarrow> document \<Rightarrow> bool" where
  \<comment> \<open>Modelled from the spec: the tag filter of \<open>list\<close> (section 4.3), which the findings
     report names (\<open>GET /documents?tag={name}\<close>) but does not quote: the document carries
     a tag whose name equals the filter ignoring case.\<close>
  "has_tag_named db name d =
     list_ex (\<lambda>(di, ti). di = d_id d
                \<and> list_ex (\<lambda>t. t_id t = ti \<and> lower (t_name t) = lower name) (tags db))
       (document_tags db)"

definition candidates :: "string option \<Rightarrow> database \<Rightarrow> document list" where
  "candidates tag db =
     (case tag of
        None \<Rightarrow> documents db
      | Some name \<Rightarrow> filter (has_tag_named db name) (documents db))"

definition select_documents ::
  "string option \<Rightarrow> int \<Rightarrow> int \<Rightarrow> database \<Rightarrow> (db_error + document list) \<times> database" where
  "select_documents tag skip limit db =
     (let db' = db\<lparr>queries := queries db + 1\<rparr>
      in if skip < 0 then (Inl (DataError ''OFFSET must not be negative''), db')
         else if limit < 0 then (Inl (DataError ''LIMIT must not be negative''), db')
         else (Inr (take (nat limit) (drop (nat skip) (candidates tag db))), db'))"

definition selectin_status :: "nat list \<Rightarrow> database \<Rightarrow> (nat \<times> proc_status) list \<times> database" where
  \<comment> \<open>\<open>selectinload(Document.processing_status)\<close>: one statement for all the given ids\<close>
  "selectin_status ids db =
     (map (\<lambda>d. (d_id d, d_status d)) (filter (\<lambda>d. d_id d \<in> set ids) (documents db)),
      db\<lparr>queries := queries db + 1\<rparr>)"

definition selectin_tags :: "nat list \<Rightarrow> database \<Rightarrow> (nat \<times> tag) list \<times> database" where
  \<comment> \<open>Modelled from the spec: the eager load of the tags (section 4.3; "Eager loading to
     prevent N+1 queries" in section 9 of FINDINGS.md), one statement for all the given
     ids like the quoted one for \<open>processing_status\<close>.\<close>
  "selectin_tags ids db =
     (concat (map (\<lambda>(di, ti). if di \<in> set ids
                                 then map (\<lambda>t. (di, t)) (filter (\<lambda>t. t_id t = ti) (tags db))
                                 else [])
                (document_tags db)),
      db\<lparr>queries := queries db + 1\<rparr>)"

record document_out =
  out_document :: document
  out_status :: "proc_status option"
  out_tags :: "tag list"

definition assemble :: "(nat \<times> proc_status) list \<Rightarrow> (nat \<times> tag) list \<Rightarrow> document \<Rightarrow> document_out" where
  "assemble statuses tgs d =
     \<lparr>out_document = d, out_status = map_of statuses (d_id d),
      out_tags = map snd (filter (\<lambda>(di, t). di = d_id d) tgs)\<rparr>"

definition list_documents ::
  "int option \<Rightarrow> int option \<Rightarrow> string option \<Rightarrow> database
     \<Rightarrow> (db_error + document_out list) \<times> database" where
  "list_documents skip limit tag db =
     (let skip' = (case skip of None \<Rightarrow> 0 | Some n \<Rightarrow> n);
          limit' = (case limit of None \<Rightarrow> 100 | Some n \<Rightarrow> n)
      in case select_documents tag skip' limit' db of
           (Inl err, db1) \<Rightarrow> (Inl err, db1)
         | (Inr page, db1) \<Rightarrow>
             (case selectin_status (map d_id page) db1 of
                (statuses, db2) \<Rightarrow>
                  (case selectin_tags (map d_id page) db2 of
                     (tgs, db3) \<Rightarrow> (Inr (map (assemble statuses tgs) page), db3))))"

text \<open>
  The listing before the fix, as section 5 of FINDINGS.md quotes it: after the
  statement for the documents, one statement per document for its status.
\<close>

definition select_status_of :: "nat \<Rightarrow> database \<Rightarrow> proc_status option \<times> database" where
  "select_status_of i db =
     (map_of (map (\<lambda>d. (d_id d, d_status d)) (documents db)) i, db\<lparr>queries := queries db + 1\<rparr>)"

fun status_per_document ::
  "document list \<Rightarrow> database \<Rightarrow> (document \<times> proc_status option) list \<times> database" where
  "status_per_document [] db = ([], db)"
| "status_per_document (d # ds) db =
     (case select_status_of (d_id d) db of
        (st, db1) \<Rightarrow>
          (case status_per_document ds db1 of
             (rest, db2) \<Rightarrow> ((d, st) # rest, db2)))"

definition list_documents_before_fix ::
  "database \<Rightarrow> (document \<times> proc_status option) list \<times> database" where
  "list_documents_before_fix db =
     status_per_document (documents db) (db\<lparr>queries := queries db + 1\<rparr>)"

definition created_descending :: "document_out list \<Rightarrow> bool" where
  \<comment> \<open>most recent first\<close>
  "created_descending outs = sorted (rev (map (\<lambda>out. d_created_at (out_document out)) outs))"

definition numbered_docs :: "nat \<Rightarrow> document list" where
  "numbered_docs n = map (\<lambda>i. doc i ''scan.pdf'' None i) [0..<n]"

definition tagged_db :: database where
  "tagged_db =
     \<lparr>documents = [doc 1 ''old.pdf'' None 1, doc 2 ''new.pdf'' None 2, doc 3 ''last.pdf'' None 3],
      tags = [\<lparr>t_id = 1, t_name = ''Invoice''\<rparr>],
      document_tags = [(2, 1), (3, 1)], next_document_id = 4, next_tag_id = 2, queries = 0\<rparr>"

section \<open>The backend: documents and tags by id\<close>

text \<open>
  The handlers for fetching and deleting a document and for tagging are not quoted in
  the findings report. They are modelled from sections 3, 4.3, 4.4 and 7 of the spec, on
  the tables above; the association table cascades on the deletion of a document, as
  the quoted schema declares (\<open>ondelete="CASCADE"\<close>), and a tag name is at most 50
  characters long (\<open>String(50)\<close>).
\<close>

datatype api_error = ValidationError | NotFoundError | InternalError

definition find_document :: "database \<Rightarrow> nat \<Rightarrow> document option" where
  "find_document db i = find (\<lambda>d. d_id d = i) (documents db)"

definition tags_of :: "database \<Rightarrow> nat \<Rightarrow> tag list" where
  \<comment> \<open>the tags associated with a document, in the order of the associations\<close>
  "tags_of db i =
     concat (map (\<lambda>(di, ti). if di = i then filter (\<lambda>t. t_id t = ti) (tags db) else [])
               (document_tags db))"

definition view :: "database \<Rightarrow> document \<Rightarrow> document_out" where
  "view db d = \<lparr>out_document = d, out_status = Some (d_status d), out_tags = tags_of db (d_id d)\<rparr>"

definition getById :: "nat \<Rightarrow> database \<Rightarrow> api_error + document_out" where
  \<comment> \<open>Modelled from the spec: \<open>getById(id)\<close> of section 4.3, "returns the full document
     including extracted content and tags, or fails with NotFoundError".\<close>
  "getById i db =
     (case find_document db i of
        None \<Rightarrow> Inl NotFoundError
      | Some d \<Rightarrow> Inr (view db d))"

definition remove_if_present :: "string \<Rightarrow> disk \<Rightarrow> disk" where
  "remove_if_present path dk =
     (case files dk path of
        None \<Rightarrow> dk
      | Some _ \<Rightarrow> dk\<lparr>files := (files dk)(path := None), io_log := io_log dk @ [RemoveFile path]\<rparr>)"

definition delete :: "nat \<Rightarrow> database \<times> disk \<Rightarrow> (api_error + unit) \<times> database \<times> disk" where
  \<comment> \<open>Modelled from the spec: \<open>delete(id)\<close> of section 4.3, "removes the document row
     (cascading tag associations) and the on-disk file if present; ... fails with
     NotFoundError if the id does not exist". Tags are never deleted (section 3).\<close>
  "delete i s =
     (case s of (db, dk) \<Rightarrow>
        (case find_document db i of
           None \<Rightarrow> (Inl NotFoundError, db, dk)
         | Some d \<Rightarrow>
             (Inr (),
              db\<lparr>documents := filter (\<lambda>d'. d_id d' \<noteq> i) (documents db),
                 document_tags := filter (\<lambda>(di, ti). di \<noteq> i) (document_tags db)\<rparr>,
              remove_if_present (d_file_path d) dk)))"

definition listAll :: "database \<Rightarrow> tag list" where
  \<comment> \<open>Modelled from the spec: \<open>listAll()\<close> of section 4.4, "returns every tag".\<close>
  "listAll db = tags db"

definition is_space :: "char \<Rightarrow> bool" where
  "is_space c = (c \<in> set [CHR '' '', CHR 0x09, CHR 0x0A, CHR 0x0B, CHR 0x0C, CHR 0x0D])"

definition trim :: "string \<Rightarrow> string" where
  "trim s = rev (dropWhile is_space (rev (dropWhile is_space s)))"

definition find_tag :: "database \<Rightarrow> string \<Rightarrow> tag option" where
  \<comment> \<open>the case-insensitive lookup\<close>
  "find_tag db n = find (\<lambda>t. lower (t_name t) = lower n) (tags db)"

definition getOrCreate :: "string \<Rightarrow> database \<Rightarrow> (api_error + tag) \<times> database" where
  \<comment> \<open>Modelled from the spec: \<open>getOrCreate(name)\<close> of section 4.4, "normalizes name (trim
     whitespace, reject empty), looks up case-insensitively, returns existing or creates
     new". The new row keeps the trimmed name as given; the column holds 50 characters.\<close>
  "getOrCreate name db =
     (let n = trim name
      in if n = [] then (Inl ValidationError, db)
         else
           (case find_tag db n of
              Some t \<Rightarrow> (Inr t, db)
            | None \<Rightarrow>
                if length n > 50 then (Inl InternalError, db)
                else
                  let t = \<lparr>t_id = next_tag_id db, t_name = n\<rparr>
                  in (Inr t, db\<lparr>tags := tags db @ [t], next_tag_id := next_tag_id db + 1\<rparr>)))"

definition link :: "nat \<Rightarrow> nat \<Rightarrow> database \<Rightarrow> database" where
  \<comment> \<open>"skips (no-op, not an error) if already linked"\<close>
  "link di ti db =
     (if (di, ti) \<in> set (document_tags db) then db
      else db\<lparr>document_tags := document_tags db @ [(di, ti)]\<rparr>)"

fun attach_each :: "nat \<Rightarrow> string list \<Rightarrow> database \<Rightarrow> (api_error + unit) \<times> database" where
  "attach_each di [] db = (Inr (), db)"
| "attach_each di (n # ns) db =
     (case getOrCreate n db of
        (Inl e, db') \<Rightarrow> (Inl e, db')
      | (Inr t, db') \<Rightarrow> attach_each di ns (link di (t_id t) db'))"

definition attach :: "nat \<Rightarrow> string list \<Rightarrow> database \<Rightarrow> (api_error + document_out) \<times> database" where
  \<comment> \<open>Modelled from the spec: \<open>attach(documentId, tagNames[])\<close> of section 4.4, "for each
     name, get-or-create then link to the document; skips if already linked; fails with
     NotFoundError if documentId does not exist". A failure leaves the database as it
     was (the store is transactional).\<close>
  "attach di names db =
     (case find_document db di of
        None \<Rightarrow> (Inl NotFoundError, db)
      | Some d \<Rightarrow>
          (case attach_each di names db of
             (Inl e, db') \<Rightarrow> (Inl e, db)
           | (Inr _, db') \<Rightarrow> (Inr (view db' d), db')))"

definition detach :: "nat \<Rightarrow> nat \<Rightarrow> database \<Rightarrow> (api_error + unit) \<times> database" where
  \<comment> \<open>Modelled from the spec: \<open>detach(documentId, tagId)\<close> of section 4.4, "removes the
     association; fails with NotFoundError if the association does not exist".\<close>
  "detach di ti db =
     (if (di, ti) \<in> set (document_tags db)
      then (Inr (), db\<lparr>document_tags := filter (\<lambda>p. p \<noteq> (di, ti)) (document_tags db)\<rparr>)
      else (Inl NotFoundError, db))"

definition tag_ids_fresh :: "database \<Rightarrow> bool" where
  \<comment> \<open>tag ids are unique and below the next id to be handed out\<close>
  "tag_ids_fresh db =
     (distinct (map t_id (tags db)) \<and> list_all (\<lambda>t. t_id t < next_tag_id db) (tags db))"

definition untagged :: "database \<Rightarrow> nat \<Rightarrow> bool" where
  "untagged db di = (di \<notin> fst ` set (document_tags db))"

definition invoice_db :: database where
  "invoice_db =
     \<lparr>documents = [doc 1 ''report.pdf'' (Some ''hello world'') 1],
      tags = [\<lparr>t_id = 1, t_name = ''invoice''\<rparr>],
      document_tags = [(1, 1)], next_document_id = 2, next_tag_id = 2, queries = 0\<rparr>"

definition report_disk :: disk where
  "report_disk = \<lparr>files = [''/tmp/docproc_uploads/report.pdf'' \<mapsto> ''%PDF''], io_log = []\<rparr>"

definition report_db :: database where
  "report_db = db_of [doc 1 ''report.pdf'' (Some ''hello world'') 1]"

section \<open>Tag colours: the hash is a valid index\<close>

lemma ToInt32_range: "int32 (ToInt32 x)"
proof -
  have "0 \<le> x mod 2 ^ 32" "x mod 2 ^ 32 < 2 ^ 32"
    by simp_all
  then show ?thesis
    unfolding ToInt32_def int32_def Let_def by auto
qed

lemma ToInt32_id: "int32 x \<Longrightarrow> ToInt32 x = x"
proof -
  assume r: "int32 x"
  show ?thesis
  proof (cases "0 \<le> x")
    case True
    with r have "x mod 2 ^ 32 = x"
      by (simp add: int32_def)
    with r show ?thesis
      by (simp add: ToInt32_def int32_def Let_def)
  next
    case False
    with r have b: "0 \<le> x + 2 ^ 32" "x + 2 ^ 32 < 2 ^ 32"
      by (simp_all add: int32_def)
    have "x mod 2 ^ 32 = (x + 2 ^ 32) mod 2 ^ 32"
      by simp
    also from b have "\<dots> = x + 2 ^ 32"
      by (rule mod_pos_pos_trivial)
    finally show ?thesis
      using r False by (simp add: ToInt32_def int32_def Let_def)
  qed
qed

lemma js_and_self: "js_and a a = ToInt32 a"
  by (simp add: js_and_def)

lemma hash_step_range: "int32 (hash_step hash c)"
  by (simp add: hash_step_def Let_def js_and_self ToInt32_range)

lemma hash_step_exact:
  assumes "int32 hash"
  shows "\<bar>js_shl hash 5\<bar> < 2 ^ 53"
    and "\<bar>js_shl hash 5 - hash\<bar> < 2 ^ 53"
    and "\<bar>(js_shl hash 5 - hash) + uint (c :: 16 word)\<bar> < 2 ^ 53"
proof -
  have s: "int32 (js_shl hash 5)"
    by (simp add: js_shl_def ToInt32_range)
  have "uint c < 2 ^ LENGTH(16)"
    by (rule uint_lt2p)
  then have c: "0 \<le> uint c" "uint c < 65536"
    by simp_all
  from s assms have b: "- 2147483648 \<le> js_shl hash 5" "js_shl hash 5 < 2147483648"
    "- 2147483648 \<le> hash" "hash < 2147483648"
    by (simp_all add: int32_def)
  have c0: "0 \<le> uint c"
    by simp
  have "\<bar>js_shl hash 5\<bar> < 9007199254740992"
    using b by linarith
  then show "\<bar>js_shl hash 5\<bar> < 2 ^ 53"
    by simp
  have "\<bar>js_shl hash 5 - hash\<bar> < 9007199254740992"
    using b by linarith
  then show "\<bar>js_shl hash 5 - hash\<bar> < 2 ^ 53"
    by simp
  have "\<bar>(js_shl hash 5 - hash) + uint c\<bar> < 9007199254740992"
    using b c c0 by linarith
  then show "\<bar>(js_shl hash 5 - hash) + uint c\<bar> < 2 ^ 53"
    by simp
qed

lemma hash_loop_range: "int32 hash \<Longrightarrow> int32 (hash_loop hash str)"
  by (induction str arbitrary: hash) (simp_all add: hash_step_range)

lemma hashString_range: "0 \<le> hashString str \<and> hashString str \<le> 2 ^ 31"
proof -
  have "int32 (hash_loop 0 str)"
    by (rule hash_loop_range) (simp add: int32_def)
  then show ?thesis
    unfolding hashString_def int32_def by linarith
qed

lemma length_TAG_COLORS: "length TAG_COLORS = 10"
  by (simp add: TAG_COLORS_def)

lemma js_rem_nonneg: "0 \<le> a \<Longrightarrow> 0 < b \<Longrightarrow> 0 \<le> js_rem a b \<and> js_rem a b < b"
  by (cases "a = 0") (simp_all add: js_rem_def)

text \<open>
  C10. \<open>getTagColor\<close> is total: for every string, the empty one included,
  \<open>hashString\<close> is a non-negative integer (at most \<open>2 ^ 31\<close>, the absolute value of
  the least int32), the index \<open>hash % TAG_COLORS.length\<close> lies inside the ten-entry
  array, and the result is an entry of \<open>TAG_COLORS\<close>, never \<open>undefined\<close>. The colour is a
  function of the name alone: equal names receive equal colours.
\<close>

theorem getTagColor_total:
  "0 \<le> hashString tagName
   \<and> 0 \<le> js_rem (hashString tagName) (int (length TAG_COLORS))
   \<and> js_rem (hashString tagName) (int (length TAG_COLORS)) < 10
   \<and> length TAG_COLORS = 10
   \<and> (\<exists>c. getTagColor tagName = Some c \<and> c \<in> set TAG_COLORS)
   \<and> (tagName = other \<longrightarrow> getTagColor tagName = getTagColor other)"
proof -
  let ?i = "js_rem (hashString tagName) (int (length TAG_COLORS))"
  have h: "0 \<le> hashString tagName"
    using hashString_range [of tagName] by simp
  have i: "0 \<le> ?i \<and> ?i < int (length TAG_COLORS)"
    using h by (intro js_rem_nonneg) (simp_all add: length_TAG_COLORS)
  then have n: "nat ?i < length TAG_COLORS"
    by linarith
  have "getTagColor tagName = Some (TAG_COLORS ! nat ?i)"
    using i by (simp add: getTagColor_def js_index_def Let_def)
  moreover have "TAG_COLORS ! nat ?i \<in> set TAG_COLORS"
    using n by (rule nth_mem)
  ultimately show ?thesis
    using h i by (simp add: length_TAG_COLORS)
qed

theorem getTagColor_total_witness:
  "0 \<le> hashString [102, 111, 111]
   \<and> (\<exists>c. getTagColor [102, 111, 111] = Some c \<and> c \<in> set TAG_COLORS)
   \<and> ([102, 111, 111] = [102, 111, 111 :: 16 word]
        \<and> getTagColor [102, 111, 111] = getTagColor [102, 111, 111])"
  using getTagColor_total [of "[102, 111, 111]" "[102, 111, 111]"] by simp

section \<open>The API client and HTTP errors\<close>

text \<open>
  C9, as the code has it. \<open>uploadDocument\<close> is the only client function that looks at
  the HTTP status. When \<open>fetch\<close> resolves with a response that is not ok, it always
  rejects; the error carries the body's \<open>detail\<close> field when the body is a JSON object
  with a truthy \<open>detail\<close>, and the fixed text \<open>Upload failed\<close> when \<open>detail\<close> is missing
  or falsy. When the response is ok it returns the parsed body. Each of the seven other
  functions returns the parsed body whenever the body is JSON, whatever the status: a 404
  with a JSON body reaches the caller as data.
\<close>

theorem api_client_http_errors:
  "(fetch e (uploadDocument_request e file') = Inr r \<longrightarrow>
      (\<not> ok r \<longrightarrow> (\<exists>err. uploadDocument e file' = Inl err))
    \<and> (\<not> ok r \<and> body_json r = Some (JObj kvs) \<and> map_of kvs ''detail'' = Some d \<and> truthy d
         \<longrightarrow> uploadDocument e file' = Inl (Error d))
    \<and> (\<not> ok r \<and> body_json r = Some (JObj kvs)
         \<and> (case map_of kvs ''detail'' of None \<Rightarrow> True | Some d' \<Rightarrow> \<not> truthy d')
         \<longrightarrow> uploadDocument e file' = Inl (Error (JStr ''Upload failed'')))
    \<and> (ok r \<and> body_json r = Some v \<longrightarrow> uploadDocument e file' = Inr v))
   \<and> (fetch e (getDocuments_request e) = Inr r \<and> body_json r = Some v
        \<longrightarrow> getDocuments e = Inr v)
   \<and> (fetch e (getDocument_request e id') = Inr r \<and> body_json r = Some v
        \<longrightarrow> getDocument e id' = Inr v)
   \<and> (fetch e (deleteDocument_request e id') = Inr r \<and> body_json r = Some v
        \<longrightarrow> deleteDocument e id' = Inr v)
   \<and> (encodeURIComponent e query = Inr encoded
        \<and> fetch e (searchDocuments_request e encoded) = Inr r \<and> body_json r = Some v
        \<longrightarrow> searchDocuments e query = Inr v)
   \<and> (fetch e (getTags_request e) = Inr r \<and> body_json r = Some v
        \<longrightarrow> getTags e = Inr v)
   \<and> (fetch e (addTagsToDocument_request e documentId tagNames) = Inr r \<and> body_json r = Some v
        \<longrightarrow> addTagsToDocument e documentId tagNames = Inr v)
   \<and> (fetch e (removeTagFromDocument_request e documentId tagId) = Inr r \<and> body_json r = Some v
        \<longrightarrow> removeTagFromDocument e documentId tagId = Inr v)"
proof -
  have up: "\<not> ok r \<Longrightarrow> \<exists>err. uploadDocument e file' = Inl err"
    if "fetch e (uploadDocument_request e file') = Inr r"
    using that by (simp add: uploadDocument_def split: sum.splits)
  have det: "uploadDocument e file' = Inl (Error d)"
    if "fetch e (uploadDocument_request e file') = Inr r" "\<not> ok r"
      "body_json r = Some (JObj kvs)" "map_of kvs ''detail'' = Some d" "truthy d"
    using that by (simp add: uploadDocument_def response_json_def js_or_def)
  have dflt: "uploadDocument e file' = Inl (Error (JStr ''Upload failed''))"
    if "fetch e (uploadDocument_request e file') = Inr r" "\<not> ok r"
      "body_json r = Some (JObj kvs)"
      "case map_of kvs ''detail'' of None \<Rightarrow> True | Some d' \<Rightarrow> \<not> truthy d'"
    using that by (simp add: uploadDocument_def response_json_def js_or_def split: option.splits)
  have okc: "uploadDocument e file' = Inr v"
    if "fetch e (uploadDocument_request e file') = Inr r" "ok r" "body_json r = Some v"
    using that by (simp add: uploadDocument_def response_json_def)
  show ?thesis
    using up det dflt okc
    by (simp add: getDocuments_def getDocument_def deleteDocument_def searchDocuments_def
        getTags_def addTagsToDocument_def removeTagFromDocument_def response_json_def)
qed

theorem api_client_http_errors_witness:
  "uploadDocument (answer_all not_found) ''%PDF'' = Inl (Error (JStr ''Document not found''))
   \<and> getDocuments (answer_all not_found) = Inr (JObj [(''detail'', JStr ''Document not found'')])
   \<and> getDocument (answer_all not_found) ''7'' = Inr (JObj [(''detail'', JStr ''Document not found'')])
   \<and> deleteDocument (answer_all not_found) ''7'' = Inr (JObj [(''detail'', JStr ''Document not found'')])
   \<and> searchDocuments (answer_all not_found) ''hello'' = Inr (JObj [(''detail'', JStr ''Document not found'')])
   \<and> getTags (answer_all not_found) = Inr (JObj [(''detail'', JStr ''Document not found'')])
   \<and> addTagsToDocument (answer_all not_found) ''7'' [''invoice''] = Inr (JObj [(''detail'', JStr ''Document not found'')])
   \<and> removeTagFromDocument (answer_all not_found) ''7'' ''3'' = Inr (JObj [(''detail'', JStr ''Document not found'')])
   \<and> \<not> ok not_found"
  using api_client_http_errors [where e = "answer_all not_found" and file' = "''%PDF''"
      and r = not_found and kvs = "[(''detail'', JStr ''Document not found'')]"
      and d = "JStr ''Document not found''"
      and v = "JObj [(''detail'', JStr ''Document not found'')]" and id' = "''7''"
      and query = "''hello''" and encoded = "''hello''" and documentId = "''7''"
      and tagNames = "[''invoice'']" and tagId = "''3''"]
  by (simp add: answer_all_def not_found_def ok_def)

text \<open>
  The claim as first stated does not hold in three places: a response that is not ok
  and has no \<open>detail\<close> gives the message \<open>Upload failed\<close>, not a \<open>detail\<close> field;
  \<open>uploadDocument\<close> also rejects on an ok response whose body is not JSON; and
  \<open>getDocument\<close> on a 404 whose body is not JSON rejects instead of returning data.
\<close>

theorem api_client_claim_counterexample:
  "\<not> ok \<lparr>status = 500, body_json = Some (JObj [])\<rparr>
   \<and> uploadDocument (answer_all \<lparr>status = 500, body_json = Some (JObj [])\<rparr>) ''%PDF''
       = Inl (Error (JStr ''Upload failed''))
   \<and> ok \<lparr>status = 200, body_json = None\<rparr>
   \<and> uploadDocument (answer_all \<lparr>status = 200, body_json = None\<rparr>) ''%PDF'' = Inl SyntaxError
   \<and> getDocument (answer_all \<lparr>status = 404, body_json = None\<rparr>) ''7'' = Inl SyntaxError"
  by (simp add: answer_all_def ok_def uploadDocument_def getDocument_def response_json_def js_or_def)


section \<open>Upload: validation and failed extraction\<close>

lemma report_pdf_is_accepted:
  "lower (path_suffix (posix ex) ''report.pdf'') = ''.pdf''"
  "\<not> str_in ''..'' (path_name (posix ex) ''report.pdf'')"
  "\<not> str_in ''/'' (path_name (posix ex) ''report.pdf'')"
  "\<not> str_in [backslash] (path_name (posix ex) ''report.pdf'')"
  "''/tmp/docproc_uploads/report.pdf'' = file_path_for (posix ex) (path_name (posix ex) ''report.pdf'')"
  by code_simp+

lemma upload_extraction_failure:
  assumes "filename file = Some fname" and "fname \<noteq> []"
    and "lower (path_suffix c fname) = ''.pdf''"
    and "\<not> str_in ''..'' (path_name c fname)"
    and "\<not> str_in ''/'' (path_name c fname)"
    and "\<not> str_in [backslash] (path_name c fname)"
    and "length (content file) \<le> MAX_FILE_SIZE"
    and "extract_text c (content file) = Inl e"
    and "p = file_path_for c (path_name c fname)"
  shows "\<exists>d'. upload_document c file d
            = (Inl (HTTPException 400 (''Failed to process PDF: '' @ e)), d')
          \<and> files d' p = None
          \<and> (\<forall>q. q \<noteq> p \<longrightarrow> files d' q = files d q)
          \<and> io_log d' = io_log d @ [WriteFile p, ExtractText p, RemoveFile p]"
  using assms
  by (simp add: upload_document_def ALLOWED_EXTENSIONS_def Let_def write_file_def
      extract_text_from_pdf_def os_remove_def)

text \<open>
  C2. An upload is rejected with a 400 or 413 \<open>HTTPException\<close> (the spec's
  \<open>ValidationError\<close>) whenever the file name is missing or empty, the lower-cased
  extension is not \<open>.pdf\<close>, the sanitized name contains \<open>..\<close>, a slash or a backslash,
  or the content is longer than \<open>MAX_FILE_SIZE\<close>. The disk is returned as it was given:
  no file was written and no extraction was started.
\<close>

theorem upload_validation_rejects:
  assumes "filename file = None \<or> filename file = Some []
     \<or> (\<exists>fname. filename file = Some fname
          \<and> (lower (path_suffix c fname) \<noteq> ''.pdf''
             \<or> str_in ''..'' (path_name c fname)
             \<or> str_in ''/'' (path_name c fname)
             \<or> str_in [backslash] (path_name c fname)))
     \<or> length (content file) > MAX_FILE_SIZE"
  shows "\<exists>code detail. upload_document c file d = (Inl (HTTPException code detail), d)
           \<and> (code = 400 \<or> code = 413)"
proof (cases "filename file")
  case None
  then show ?thesis
    by (simp add: upload_document_def)
next
  case (Some fname)
  show ?thesis
  proof (cases "fname = []")
    case True
    with Some show ?thesis
      by (simp add: upload_document_def)
  next
    case nonempty: False
    show ?thesis
    proof (cases "lower (path_suffix c fname) = ''.pdf''")
      case False
      with Some nonempty show ?thesis
        by (simp add: upload_document_def ALLOWED_EXTENSIONS_def Let_def)
    next
      case pdf: True
      show ?thesis
      proof (cases "str_in ''..'' (path_name c fname) \<or> str_in ''/'' (path_name c fname)
                    \<or> str_in [backslash] (path_name c fname)")
        case True
        with Some nonempty pdf show ?thesis
          by (simp add: upload_document_def ALLOWED_EXTENSIONS_def Let_def)
      next
        case False
        with assms Some nonempty pdf have "length (content file) > MAX_FILE_SIZE"
          by auto
        with Some nonempty pdf False show ?thesis
          by (simp add: upload_document_def ALLOWED_EXTENSIONS_def Let_def)
      qed
    qed
  qed
qed

theorem upload_validation_rejects_witness:
  "str_in ''..'' (path_name (posix broken_pdf) ''a..pdf'')
   \<and> (\<exists>code detail.
        upload_document (posix broken_pdf) \<lparr>filename = Some ''a..pdf'', content = ''%PDF''\<rparr>
          empty_disk = (Inl (HTTPException code detail), empty_disk)
        \<and> (code = 400 \<or> code = 413))"
proof -
  have h: "str_in ''..'' (path_name (posix broken_pdf) ''a..pdf'')"
    by code_simp
  then show ?thesis
    using upload_validation_rejects [of "\<lparr>filename = Some ''a..pdf'', content = ''%PDF''\<rparr>"
        "posix broken_pdf" empty_disk]
    by simp
qed

text \<open>
  C1, as the code has it. When an upload passes validation and the extraction routine
  raises, the handler removes the file it wrote and raises \<open>HTTPException\<close> with status
  400 and detail \<open>Failed to process PDF: \<close> followed by the text of the exception. Every
  other file on disk is left as it was.
\<close>

theorem extraction_failure_is_http_400:
  assumes "filename file = Some fname" and "fname \<noteq> []"
    and "lower (path_suffix c fname) = ''.pdf''"
    and "\<not> str_in ''..'' (path_name c fname)"
    and "\<not> str_in ''/'' (path_name c fname)"
    and "\<not> str_in [backslash] (path_name c fname)"
    and "length (content file) \<le> MAX_FILE_SIZE"
    and "extract_text c (content file) = Inl e"
    and "p = file_path_for c (path_name c fname)"
  shows "\<exists>d'. upload_document c file d
            = (Inl (HTTPException 400 (''Failed to process PDF: '' @ e)), d')
          \<and> files d' p = None
          \<and> (\<forall>q. q \<noteq> p \<longrightarrow> files d' q = files d q)
          \<and> io_log d' = io_log d @ [WriteFile p, ExtractText p, RemoveFile p]"
  using assms by (rule upload_extraction_failure)

theorem extraction_failure_is_http_400_witness:
  "\<exists>d'. upload_document (posix broken_pdf)
           \<lparr>filename = Some ''report.pdf'', content = ''not a pdf''\<rparr> empty_disk
         = (Inl (HTTPException 400 ''Failed to process PDF: cannot open broken document''), d')
       \<and> files d' ''/tmp/docproc_uploads/report.pdf'' = None
       \<and> io_log d' = [WriteFile ''/tmp/docproc_uploads/report.pdf'',
                      ExtractText ''/tmp/docproc_uploads/report.pdf'',
                      RemoveFile ''/tmp/docproc_uploads/report.pdf'']"
proof -
  let ?c = "posix broken_pdf"
  let ?f = "\<lparr>filename = Some ''report.pdf'', content = ''not a pdf''\<rparr>"
  have 1: "lower (path_suffix ?c ''report.pdf'') = ''.pdf''"
    by code_simp
  have 2: "\<not> str_in ''..'' (path_name ?c ''report.pdf'')"
    by code_simp
  have 3: "\<not> str_in ''/'' (path_name ?c ''report.pdf'')"
    by code_simp
  have 4: "\<not> str_in [backslash] (path_name ?c ''report.pdf'')"
    by code_simp
  have 5: "length (content ?f) \<le> MAX_FILE_SIZE"
    by (simp add: MAX_FILE_SIZE_def)
  have 6: "extract_text ?c (content ?f) = Inl ''cannot open broken document''"
    by (simp add: posix_def broken_pdf_def)
  have 7: "''/tmp/docproc_uploads/report.pdf'' = file_path_for ?c (path_name ?c ''report.pdf'')"
    by code_simp
  show ?thesis
    using extraction_failure_is_http_400 [of ?f "''report.pdf''" ?c
        "''cannot open broken document''" "''/tmp/docproc_uploads/report.pdf''" empty_disk,
        OF _ _ 1 2 3 4 5 6 7]
    by (auto simp: empty_disk_def)
qed

text \<open>
  The claim as first stated says that the upload call still succeeds and the failure is
  stored on the document. The quoted handler answers the upload itself with status 400.
\<close>

theorem extraction_failure_claim_counterexample:
  "fst (upload_document (posix broken_pdf)
          \<lparr>filename = Some ''report.pdf'', content = ''not a pdf''\<rparr> empty_disk)
     = Inl (HTTPException 400 ''Failed to process PDF: cannot open broken document'')"
proof -
  let ?c = "posix broken_pdf"
  let ?f = "\<lparr>filename = Some ''report.pdf'', content = ''not a pdf''\<rparr>"
  have 5: "length (content ?f) \<le> MAX_FILE_SIZE"
    by (simp add: MAX_FILE_SIZE_def)
  have 6: "extract_text ?c (content ?f) = Inl ''cannot open broken document''"
    by (simp add: posix_def broken_pdf_def)
  show ?thesis
    using upload_extraction_failure [of ?f "''report.pdf''" ?c
        "''cannot open broken document''" "''/tmp/docproc_uploads/report.pdf''" empty_disk,
        OF _ _ report_pdf_is_accepted(1-4) 5 6 report_pdf_is_accepted(5)]
    by auto
qed


section \<open>Search\<close>

lemma lower_append: "lower (a @ b) = lower a @ lower b"
  by (simp add: lower_def)

lemma lower_percent: "lower ''%'' = ''%''"
  by (simp add: lower_def lower_char_def)

lemma of_char_lower_char:
  "(of_char (lower_char c) :: nat) =
     (if 65 \<le> (of_char c :: nat) \<and> (of_char c :: nat) \<le> 90 then of_char c + 32 else of_char c)"
  by (simp add: lower_char_def Let_def)

lemma char_eq_iff_nat: "c = d \<longleftrightarrow> (of_char c :: nat) = of_char d"
  by simp

lemma lower_char_meta:
  "lower_char c = CHR ''%'' \<longleftrightarrow> c = CHR ''%''"
  "lower_char c = CHR ''_'' \<longleftrightarrow> c = CHR ''_''"
  "lower_char c = backslash \<longleftrightarrow> c = backslash"
  unfolding backslash_def
  by (simp_all add: char_eq_iff_nat [of "lower_char c"] char_eq_iff_nat [of c] of_char_lower_char)

lemma like_parse_ends_percent: "like_parse (xs @ ''%'') \<noteq> None"
  by (induction xs rule: like_parse.induct) (auto simp: backslash_def)

lemma like_parse_Lit:
  "c \<noteq> backslash \<Longrightarrow> c \<noteq> CHR ''%'' \<Longrightarrow> c \<noteq> CHR ''_''
     \<Longrightarrow> like_parse (c # s) = map_option ((#) (Lit c)) (like_parse s)"
  by (cases s) simp_all

lemma like_parse_percent:
  "like_parse (CHR ''%'' # s) = map_option ((#) AnySeq) (like_parse s)"
  by (cases s) (simp_all add: backslash_def)

lemma like_parse_plain:
  "like_plain q \<Longrightarrow> like_parse (q @ t) = map_option ((@) (map Lit q)) (like_parse t)"
proof (induction q)
  case Nil
  then show ?case by (simp add: option.map_ident)
next
  case (Cons c q)
  then have "like_plain q" and c: "c \<noteq> backslash" "c \<noteq> CHR ''%''" "c \<noteq> CHR ''_''"
    by (auto simp: like_plain_def)
  with Cons.IH show ?case
    by (simp add: like_parse_Lit option.map_comp comp_def)
qed

lemma like_match_AnySeq_only: "like_match [AnySeq] s"
  by (induction s) simp_all

lemma like_match_prefix: "like_match (map Lit q @ [AnySeq]) s \<longleftrightarrow> prefix q s"
proof (induction q arbitrary: s)
  case Nil
  then show ?case by (simp add: like_match_AnySeq_only)
next
  case (Cons c q)
  then show ?case by (cases s) auto
qed

lemma like_match_AnySeq: "like_match (AnySeq # ts) s \<longleftrightarrow> (\<exists>s'. suffix s' s \<and> like_match ts s')"
proof (induction s)
  case Nil
  then show ?case by simp
next
  case (Cons x s)
  then show ?case
    by (auto simp: suffix_Cons)
qed

lemma like_match_substring:
  "like_match (AnySeq # map Lit q @ [AnySeq]) s \<longleftrightarrow> sublist q s"
  by (simp only: like_match_AnySeq like_match_prefix sublist_altdef')


lemma like_plain_lower: "like_plain q \<Longrightarrow> like_plain (lower q)"
  unfolding like_plain_def lower_def set_map image_iff
  by (metis lower_char_meta)

lemma search_pattern_parses:
  "\<exists>ts. like_parse (lower (''%'' @ q @ ''%'')) = Some ts"
proof -
  have "lower (''%'' @ q @ ''%'') = (''%'' @ lower q) @ ''%''"
    by (simp add: lower_def lower_char_def)
  then show ?thesis
    using like_parse_ends_percent [of "''%'' @ lower q"] by (simp del: append.simps)
qed

lemma ilike_search_pattern_plain:
  assumes "like_plain q"
  shows "ilike c (''%'' @ q @ ''%'') = Inr (contains_ci c q)"
proof -
  have l: "lower (''%'' @ q @ ''%'') = CHR ''%'' # (lower q @ ''%'')"
    by (simp add: lower_def lower_char_def)
  have "like_parse (lower q @ ''%'') = Some (map Lit (lower q) @ [AnySeq])"
    using like_parse_plain [OF like_plain_lower [OF assms], of "''%''"]
    by (simp add: backslash_def)
  then have "like_parse (lower (''%'' @ q @ ''%'')) = Some (AnySeq # map Lit (lower q) @ [AnySeq])"
    unfolding l like_parse_percent by simp
  then show ?thesis
    by (simp add: ilike_def contains_ci_def like_match_substring)
qed

lemma ilike_search_pattern_total: "\<exists>m. ilike c (''%'' @ q @ ''%'') = Inr m"
  using search_pattern_parses [of q] by (auto simp: ilike_def)

lemma select_ilike_total: "\<exists>rows. select_ilike (''%'' @ q @ ''%'') ds = Inr rows"
proof (induction ds)
  case Nil
  then show ?case by simp
next
  case (Cons d ds)
  then obtain rows where r: "select_ilike (''%'' @ q @ ''%'') ds = Inr rows"
    by blast
  show ?case
  proof (cases "d_content d")
    case None
    with r show ?thesis by simp
  next
    case (Some c)
    obtain m where "ilike c (''%'' @ q @ ''%'') = Inr m"
      using ilike_search_pattern_total by blast
    with Some r show ?thesis by simp
  qed
qed

lemma select_ilike_plain:
  assumes "like_plain q"
  shows "select_ilike (''%'' @ q @ ''%'') ds = Inr (substring_rows q ds)"
proof (induction ds)
  case Nil
  then show ?case by (simp add: substring_rows_def)
next
  case (Cons d ds)
  have step: "substring_rows q (d # ds) =
      (case d_content d of None \<Rightarrow> []
       | Some c \<Rightarrow> if contains_ci c q then [(d_id d, d_filename d, c)] else [])
      @ substring_rows q ds"
    by (simp add: substring_rows_def)
  show ?case
  proof (cases "d_content d")
    case None
    with Cons step show ?thesis by simp
  next
    case (Some c)
    have "ilike c (''%'' @ q @ ''%'') = Inr (contains_ci c q)"
      using assms by (rule ilike_search_pattern_plain)
    with Some Cons step show ?thesis by simp
  qed
qed

lemma search_documents_frame:
  "documents (snd (search_documents q db)) = documents db"
  "tags (snd (search_documents q db)) = tags db"
  "document_tags (snd (search_documents q db)) = document_tags db"
  by (simp_all add: search_documents_def db_execute_def search_statement_def Let_def)

lemma search_documents_total: "\<exists>rows. fst (search_documents q db) = Inr rows"
  using select_ilike_total [of q "documents db"]
  by (simp add: search_documents_def db_execute_def search_statement_def Let_def)

lemma search_documents_plain:
  "like_plain q \<Longrightarrow> fst (search_documents q db) = Inr (substring_rows q (documents db))"
  using select_ilike_plain [of q "documents db"]
  by (simp add: search_documents_def db_execute_def search_statement_def Let_def)

lemma search_statement_text: "fst (search_statement q) = SEARCH_SQL"
  by (simp add: search_statement_def)

lemma search_drop_table:
  "fst (search_documents ''DROP TABLE'' db) = Inr (substring_rows ''DROP TABLE'' (documents db))"
  by (rule search_documents_plain) (simp add: like_plain_def backslash_def)

text \<open>
  C4. The statement text is constant and the query reaches the database as a bound
  parameter (\<open>search_statement_text\<close>); the search never fails
  (\<open>search_documents_total\<close>) and changes no table (\<open>search_documents_frame\<close>); for a
  query without \<open>%\<close>, \<open>_\<close> and backslash, \<open>DROP TABLE\<close> among them, it returns exactly
  the rows whose content contains the query ignoring case (\<open>search_documents_plain\<close>).
  The parameter is not escaped for \<open>LIKE\<close>, so a query with one of these three
  characters is read as a pattern: \<open>a_c\<close> finds a document whose content is \<open>abc\<close>,
  which does not contain \<open>a_c\<close>.
\<close>

theorem search_wildcard_is_not_substring:
  "fst (search_documents ''a_c'' (db_of [doc 1 ''notes.pdf'' (Some ''abc'') 1]))
     = Inr [(1, ''notes.pdf'', ''abc'')]
   \<and> \<not> contains_ci ''abc'' ''a_c''"
  by code_simp

section \<open>Listing documents\<close>

lemma select_documents_queries:
  "queries (snd (select_documents tag skip limit db)) = queries db + 1"
  by (simp add: select_documents_def Let_def)

lemma select_documents_page:
  "0 \<le> skip \<Longrightarrow> 0 \<le> limit \<Longrightarrow>
     fst (select_documents tag skip limit db)
       = Inr (take (nat limit) (drop (nat skip) (candidates tag db)))"
  by (simp add: select_documents_def Let_def)

lemma list_documents_queries_ok:
  assumes "0 \<le> skip" "0 \<le> limit"
  shows "queries (snd (list_documents (Some skip) (Some limit) tag db)) = queries db + 3"
  using assms
  by (simp add: list_documents_def select_documents_def selectin_status_def selectin_tags_def Let_def)

lemma status_per_document_queries:
  "queries (snd (status_per_document ds db)) = queries db + length ds"
proof (induction ds arbitrary: db)
  case Nil
  then show ?case by simp
next
  case (Cons d ds)
  obtain rest db2 where r: "status_per_document ds (db\<lparr>queries := queries db + 1\<rparr>) = (rest, db2)"
    by (cases "status_per_document ds (db\<lparr>queries := queries db + 1\<rparr>)")
  from Cons [of "db\<lparr>queries := queries db + 1\<rparr>"] r
  have "queries db2 = queries db + 1 + length ds"
    by simp
  with r show ?case
    by (simp add: select_status_of_def)
qed

lemma list_documents_before_fix_queries:
  "queries (snd (list_documents_before_fix db)) = queries db + 1 + length (documents db)"
  by (simp add: list_documents_before_fix_def status_per_document_queries)

text \<open>
  C8. \<open>list(skip=0, limit=100)\<close>, with the arguments given or defaulted, sends three
  statements to the database whatever the tables hold: one for the page, one for the
  statuses of the whole page and one for the tags of the whole page. Before the fix the
  listing sent one statement per document (\<open>list_documents_before_fix_queries\<close>).
\<close>

theorem list_documents_constant_queries:
  "queries (snd (list_documents (Some 0) (Some 100) tag db)) = queries db + 3
   \<and> queries (snd (list_documents None None tag db)) = queries db + 3
   \<and> queries (snd (list_documents (Some 0) (Some 100) tag db)) - queries db
       = queries (snd (list_documents (Some 0) (Some 100) tag db')) - queries db'"
  by (simp add: list_documents_def select_documents_def selectin_status_def selectin_tags_def Let_def)

lemma list_documents_out:
  assumes "0 \<le> skip" "0 \<le> limit"
  shows "\<exists>outs. fst (list_documents (Some skip) (Some limit) tag db) = Inr outs
          \<and> map out_document outs = take (nat limit) (drop (nat skip) (candidates tag db))"
  using assms
  by (simp add: list_documents_def select_documents_def selectin_status_def selectin_tags_def
      Let_def assemble_def comp_def)

lemma candidates_tagged:
  "list_all (has_tag_named db name) (candidates (Some name) db)"
  by (simp add: candidates_def list_all_iff)

text \<open>
  C5, as the code has it. For \<open>skip\<close> and \<open>limit\<close> that are not negative, \<open>list\<close> returns
  the candidate documents in the order in which the database scans them, without the
  first \<open>skip\<close> and cut after \<open>limit\<close>; the candidates are all documents, or with a tag
  filter the documents that carry a tag of that name ignoring case. An omitted \<open>limit\<close>
  is 100 and an omitted \<open>skip\<close> is 0.
\<close>

theorem list_documents_page:
  assumes "0 \<le> skip" and "0 \<le> limit"
  shows "\<exists>outs. fst (list_documents (Some skip) (Some limit) tag db) = Inr outs
          \<and> map out_document outs = take (nat limit) (drop (nat skip) (candidates tag db))
          \<and> length outs \<le> nat limit
          \<and> (case tag of
                None \<Rightarrow> candidates tag db = documents db
              | Some name \<Rightarrow> list_all (\<lambda>out. has_tag_named db name (out_document out)) outs)
          \<and> list_documents (Some skip) None tag db = list_documents (Some skip) (Some 100) tag db
          \<and> list_documents None (Some limit) tag db = list_documents (Some 0) (Some limit) tag db"
proof -
  obtain outs where o: "fst (list_documents (Some skip) (Some limit) tag db) = Inr outs"
    and m: "map out_document outs = take (nat limit) (drop (nat skip) (candidates tag db))"
    using list_documents_out [OF assms] by blast
  have "length outs = length (map out_document outs)"
    by simp
  also have "\<dots> \<le> nat limit"
    unfolding m by simp
  finally have len: "length outs \<le> nat limit" .
  have tagged: "list_all (\<lambda>out. has_tag_named db name (out_document out)) outs"
    if "tag = Some name" for name
  proof -
    have "set (map out_document outs) \<subseteq> set (candidates (Some name) db)"
      unfolding m that by (meson set_drop_subset set_take_subset subset_trans)
    then show ?thesis
      using candidates_tagged [of db name] by (auto simp: list_all_iff)
  qed
  have dflt: "list_documents (Some skip) None tag db = list_documents (Some skip) (Some 100) tag db"
    "list_documents None (Some limit) tag db = list_documents (Some 0) (Some limit) tag db"
    by (simp_all add: list_documents_def)
  show ?thesis
    using o m len tagged dflt by (auto simp: candidates_def split: option.splits)
qed

theorem list_documents_page_witness:
  "(0::int) \<le> 0 \<and> (0::int) \<le> 1
   \<and> (\<exists>outs. fst (list_documents (Some 0) (Some 1) (Some ''invoice'') tagged_db) = Inr outs
          \<and> map out_document outs = [doc 2 ''new.pdf'' None 2]
          \<and> length outs \<le> 1
          \<and> list_all (\<lambda>out. has_tag_named tagged_db ''invoice'' (out_document out)) outs)"
proof -
  have c: "candidates (Some ''invoice'') tagged_db = [doc 2 ''new.pdf'' None 2, doc 3 ''last.pdf'' None 3]"
    by code_simp
  from list_documents_page [of 0 1 "Some ''invoice''" tagged_db]
  obtain outs where "fst (list_documents (Some 0) (Some 1) (Some ''invoice'') tagged_db) = Inr outs"
    and "map out_document outs
           = take (nat 1) (drop (nat 0) (candidates (Some ''invoice'') tagged_db))"
    and "length outs \<le> nat 1"
    and "list_all (\<lambda>out. has_tag_named tagged_db ''invoice'' (out_document out)) outs"
    by auto
  then show ?thesis
    by (auto simp: c)
qed

text \<open>
  The claim as first stated asks for the most recent document first and for a ceiling
  on \<open>limit\<close>. The statement has no \<open>ORDER BY\<close>: two documents stored oldest first
  are returned oldest first. And \<open>limit\<close> is passed on as given: with \<open>limit = 1000\<close>,
  101 stored documents are all returned.
\<close>

theorem list_documents_claim_counterexample:
  "fst (list_documents (Some 0) (Some 100) None
          (db_of [doc 1 ''old.pdf'' None 1, doc 2 ''new.pdf'' None 2]))
     = Inr [\<lparr>out_document = doc 1 ''old.pdf'' None 1, out_status = Some processed, out_tags = []\<rparr>,
            \<lparr>out_document = doc 2 ''new.pdf'' None 2, out_status = Some processed, out_tags = []\<rparr>]
   \<and> \<not> created_descending
         [\<lparr>out_document = doc 1 ''old.pdf'' None 1, out_status = Some processed, out_tags = []\<rparr>,
          \<lparr>out_document = doc 2 ''new.pdf'' None 2, out_status = Some processed, out_tags = []\<rparr>]
   \<and> map_sum id length (fst (list_documents (Some 0) (Some 1000) None (db_of (numbered_docs 101))))
       = Inr 101"
  by (simp add: list_documents_def select_documents_def selectin_status_def selectin_tags_def
      Let_def assemble_def candidates_def db_of_def doc_def created_descending_def numbered_docs_def)


section \<open>Fetching and deleting a document\<close>

lemma find_document_None: "find_document db i = None \<longleftrightarrow> i \<notin> d_id ` set (documents db)"
  by (auto simp: find_document_def find_None_iff)

lemma find_document_Some: "find_document db i = Some d \<Longrightarrow> d \<in> set (documents db) \<and> d_id d = i"
  by (auto simp: find_document_def find_Some_iff)

lemma remove_if_present_files:
  "files (remove_if_present p dk) p = None"
  "q \<noteq> p \<Longrightarrow> files (remove_if_present p dk) q = files dk q"
  by (simp_all add: remove_if_present_def split: option.splits)

lemma delete_missing:
  "i \<notin> d_id ` set (documents db) \<Longrightarrow> delete i (db, dk) = (Inl NotFoundError, db, dk)"
  using find_document_None [of db i] by (simp add: delete_def)

lemma delete_present:
  assumes "find_document db i = Some d"
  shows "delete i (db, dk) =
           (Inr (),
            db\<lparr>documents := filter (\<lambda>d'. d_id d' \<noteq> i) (documents db),
               document_tags := filter (\<lambda>(di, ti). di \<noteq> i) (document_tags db)\<rparr>,
            remove_if_present (d_file_path d) dk)"
  using assms by (simp add: delete_def)

text \<open>
  C7. For an id that no stored document has, \<open>getById\<close> and \<open>delete\<close> both fail with
  \<open>NotFoundError\<close> and \<open>delete\<close> changes nothing. For a stored id \<open>delete\<close> succeeds; after
  it \<open>getById\<close> fails with \<open>NotFoundError\<close>, the rows of the document and all its tag
  associations are gone and every other row and association is kept, the document's
  file is not on disk and no other file is touched, and the tags are what they were:
  \<open>listAll\<close> still returns a tag whose last document was deleted.
\<close>

theorem delete_then_not_found:
  "(i \<notin> d_id ` set (documents db) \<longrightarrow>
      getById i db = Inl NotFoundError \<and> delete i (db, dk) = (Inl NotFoundError, db, dk))
   \<and> (i \<in> d_id ` set (documents db) \<longrightarrow> fst (delete i (db, dk)) = Inr ())
   \<and> (delete i (db, dk) = (Inr (), db', dk') \<longrightarrow>
        getById i db' = Inl NotFoundError
        \<and> documents db' = filter (\<lambda>d. d_id d \<noteq> i) (documents db)
        \<and> document_tags db' = filter (\<lambda>(di, ti). di \<noteq> i) (document_tags db)
        \<and> i \<notin> fst ` set (document_tags db')
        \<and> (\<forall>d. find_document db i = Some d \<longrightarrow>
               files dk' (d_file_path d) = None
               \<and> (\<forall>q. q \<noteq> d_file_path d \<longrightarrow> files dk' q = files dk q))
        \<and> tags db' = tags db
        \<and> listAll db' = listAll db)"
proof (intro conjI impI)
  assume m: "i \<notin> d_id ` set (documents db)"
  then show "getById i db = Inl NotFoundError"
    using find_document_None [of db i] by (simp add: getById_def)
  from m show "delete i (db, dk) = (Inl NotFoundError, db, dk)"
    by (rule delete_missing)
next
  assume "i \<in> d_id ` set (documents db)"
  then obtain d where "find_document db i = Some d"
    using find_document_None [of db i] by (cases "find_document db i") auto
  then show "fst (delete i (db, dk)) = Inr ()"
    by (simp add: delete_present)
next
  assume del: "delete i (db, dk) = (Inr (), db', dk')"
  then obtain d where d: "find_document db i = Some d"
    by (cases "find_document db i") (simp_all add: delete_def)
  from del have db': "db' = db\<lparr>documents := filter (\<lambda>d'. d_id d' \<noteq> i) (documents db),
               document_tags := filter (\<lambda>(di, ti). di \<noteq> i) (document_tags db)\<rparr>"
    and dk': "dk' = remove_if_present (d_file_path d) dk"
    unfolding delete_present [OF d] by simp_all
  show "documents db' = filter (\<lambda>d. d_id d \<noteq> i) (documents db)"
    by (simp add: db')
  then have "i \<notin> d_id ` set (documents db')"
    by auto
  then show "getById i db' = Inl NotFoundError"
    using find_document_None [of db' i] by (simp add: getById_def)
  show "document_tags db' = filter (\<lambda>(di, ti). di \<noteq> i) (document_tags db)"
    by (simp add: db')
  then show "i \<notin> fst ` set (document_tags db')"
    by auto
  show "\<forall>d. find_document db i = Some d \<longrightarrow>
          files dk' (d_file_path d) = None
          \<and> (\<forall>q. q \<noteq> d_file_path d \<longrightarrow> files dk' q = files dk q)"
    using d by (simp add: dk' remove_if_present_files)
  show "tags db' = tags db"
    by (simp add: db')
  then show "listAll db' = listAll db"
    by (simp add: listAll_def)
qed

theorem delete_then_not_found_witness:
  "7 \<notin> d_id ` set (documents invoice_db)
   \<and> getById 7 invoice_db = Inl NotFoundError
   \<and> delete 7 (invoice_db, report_disk) = (Inl NotFoundError, invoice_db, report_disk)
   \<and> 1 \<in> d_id ` set (documents invoice_db)
   \<and> fst (delete 1 (invoice_db, report_disk)) = Inr ()
   \<and> getById 1 (fst (snd (delete 1 (invoice_db, report_disk)))) = Inl NotFoundError
   \<and> document_tags (fst (snd (delete 1 (invoice_db, report_disk)))) = []
   \<and> files (snd (snd (delete 1 (invoice_db, report_disk)))) ''/tmp/docproc_uploads/report.pdf'' = None
   \<and> listAll (fst (snd (delete 1 (invoice_db, report_disk)))) = [\<lparr>t_id = 1, t_name = ''invoice''\<rparr>]"
proof -
  let ?r = "delete 1 (invoice_db, report_disk)"
  let ?d = "doc 1 ''report.pdf'' (Some ''hello world'') 1"
  have a: "7 \<notin> d_id ` set (documents invoice_db)" "1 \<in> d_id ` set (documents invoice_db)"
    by (simp_all add: invoice_db_def doc_def)
  have f: "find_document invoice_db 1 = Some ?d"
    by (simp add: find_document_def invoice_db_def doc_def)
  have p: "d_file_path ?d = ''/tmp/docproc_uploads/report.pdf''"
    by (simp add: doc_def)
  note missing = delete_then_not_found [of 7 invoice_db report_disk]
  note present = delete_then_not_found [of 1 invoice_db report_disk "fst (snd ?r)" "snd (snd ?r)"]
  from a(2) present have ok: "fst ?r = Inr ()"
    by blast
  then have e: "?r = (Inr (), fst (snd ?r), snd (snd ?r))"
    by (simp add: prod_eq_iff)
  from e present have after: "getById 1 (fst (snd ?r)) = Inl NotFoundError"
    "document_tags (fst (snd ?r)) = filter (\<lambda>(di, ti). di \<noteq> 1) (document_tags invoice_db)"
    "files (snd (snd ?r)) (d_file_path ?d) = None"
    "listAll (fst (snd ?r)) = listAll invoice_db"
    using f by blast+
  from a(1) missing have before: "getById 7 invoice_db = Inl NotFoundError"
    "delete 7 (invoice_db, report_disk) = (Inl NotFoundError, invoice_db, report_disk)"
    by blast+
  have t: "filter (\<lambda>(di, ti). di \<noteq> 1) (document_tags invoice_db) = []"
    "listAll invoice_db = [\<lparr>t_id = 1, t_name = ''invoice''\<rparr>]"
    by (simp_all add: invoice_db_def listAll_def)
  show ?thesis
    using a ok before after(1) after(2) [unfolded t] after(3) [unfolded p] after(4) [unfolded t]
    by (intro conjI)
qed

section \<open>Tagging\<close>

lemma is_space_lower_char: "is_space (lower_char c) = is_space c"
  unfolding is_space_def
  by (simp add: char_eq_iff_nat [of "lower_char c"] char_eq_iff_nat [of c] of_char_lower_char)

lemma dropWhile_is_space_lower:
  "dropWhile is_space (lower s) = lower (dropWhile is_space s)"
  by (simp add: lower_def dropWhile_map comp_def is_space_lower_char)

lemma rev_lower: "rev (lower s) = lower (rev s)"
  by (simp add: lower_def rev_map)

lemma trim_lower: "trim (lower s) = lower (trim s)"
  by (simp add: trim_def dropWhile_is_space_lower rev_lower)

lemma lower_trim_cong: "lower a = lower b \<Longrightarrow> lower (trim a) = lower (trim b)"
  by (metis trim_lower)

lemma find_tag_cong: "lower a = lower b \<Longrightarrow> find_tag db a = find_tag db b"
  by (simp add: find_tag_def)

lemma find_tag_Some: "find_tag db n = Some t \<Longrightarrow> t \<in> set (tags db) \<and> lower (t_name t) = lower n"
  by (auto simp: find_tag_def find_Some_iff)

lemma find_tag_append_new:
  "find_tag db n = None \<Longrightarrow> lower (t_name t) = lower n
     \<Longrightarrow> find_tag (db\<lparr>tags := tags db @ [t], next_tag_id := k\<rparr>) n = Some t"
  by (auto simp: find_tag_def find_None_iff find_Some_iff nth_append intro!: exI [of _ "length (tags db)"])

lemma getOrCreate_ok:
  assumes "trim name \<noteq> []" and "length (trim name) \<le> 50"
  shows "\<exists>t db1. getOrCreate name db = (Inr t, db1)
           \<and> find_tag db1 (trim name) = Some t
           \<and> documents db1 = documents db
           \<and> document_tags db1 = document_tags db
           \<and> (tag_ids_fresh db \<longrightarrow> tag_ids_fresh db1)"
proof (cases "find_tag db (trim name)")
  case None
  let ?t = "\<lparr>t_id = next_tag_id db, t_name = trim name\<rparr>"
  let ?db1 = "db\<lparr>tags := tags db @ [?t], next_tag_id := next_tag_id db + 1\<rparr>"
  have g: "getOrCreate name db = (Inr ?t, ?db1)"
    using assms None by (simp add: getOrCreate_def Let_def)
  have f: "find_tag ?db1 (trim name) = Some ?t"
    using None by (intro find_tag_append_new) simp_all
  have w: "tag_ids_fresh ?db1" if "tag_ids_fresh db"
    using that by (auto simp: tag_ids_fresh_def list_all_iff)
  show ?thesis
    using g f w by simp
next
  case (Some t)
  then have "getOrCreate name db = (Inr t, db)"
    using assms by (simp add: getOrCreate_def Let_def)
  with Some show ?thesis by simp
qed

lemma getOrCreate_found:
  "trim name \<noteq> [] \<Longrightarrow> find_tag db (trim name) = Some t \<Longrightarrow> getOrCreate name db = (Inr t, db)"
  by (simp add: getOrCreate_def Let_def)

lemma link_linked: "(di, ti) \<in> set (document_tags (link di ti db))"
  by (simp add: link_def)

lemma link_again: "(di, ti) \<in> set (document_tags db) \<Longrightarrow> link di ti db = db"
  by (simp add: link_def)

lemma link_frame:
  "documents (link di ti db) = documents db"
  "tags (link di ti db) = tags db"
  "find_tag (link di ti db) n = find_tag db n"
  "tag_ids_fresh (link di ti db) = tag_ids_fresh db"
  by (simp_all add: link_def find_tag_def tag_ids_fresh_def)

lemma find_document_frame: "documents db' = documents db \<Longrightarrow> find_document db' i = find_document db i"
  by (simp add: find_document_def)

lemma filter_by_fresh_id:
  assumes "distinct (map t_id ts)" and "t \<in> set ts"
  shows "filter (\<lambda>t'. t_id t' = t_id t) ts = [t]"
  using assms
proof (induction ts)
  case Nil
  then show ?case by simp
next
  case (Cons a ts)
  show ?case
  proof (cases "a = t")
    case True
    with Cons.prems have "t_id t \<notin> t_id ` set ts"
      by simp
    then have "filter (\<lambda>t'. t_id t' = t_id t) ts = []"
      unfolding filter_empty_conv by (metis imageI)
    with True show ?thesis by simp
  next
    case False
    with Cons.prems have "t \<in> set ts" "t_id a \<noteq> t_id t"
      by auto
    with Cons show ?thesis by simp
  qed
qed

lemma concat_untagged:
  "d \<notin> fst ` set ps \<Longrightarrow> concat (map (\<lambda>(di, ti). if di = d then f ti else []) ps) = []"
  by (induction ps) auto

lemma tags_of_untagged_link:
  assumes "untagged db d" and "tag_ids_fresh db" and "t \<in> set (tags db)"
  shows "tags_of (link d (t_id t) db) d = [t]"
proof -
  have no: "(d, t_id t) \<notin> set (document_tags db)"
    using assms(1) by (force simp: untagged_def)
  have old: "concat (map (\<lambda>(di, ti). if di = d then filter (\<lambda>t. t_id t = ti) (tags db) else [])
               (document_tags db)) = []"
    using assms(1) unfolding untagged_def by (rule concat_untagged)
  have one: "filter (\<lambda>t'. t_id t' = t_id t) (tags db) = [t]"
    using assms(2,3) by (intro filter_by_fresh_id) (simp_all add: tag_ids_fresh_def)
  have t1: "tags (link d (t_id t) db) = tags db"
    by (simp add: link_def)
  have dt: "document_tags (link d (t_id t) db) = document_tags db @ [(d, t_id t)]"
    using no by (simp add: link_def)
  show ?thesis
    unfolding tags_of_def t1 dt using old one by simp
qed

lemma trim_nonempty_cong:
  assumes "lower a = lower b" and "trim a \<noteq> []"
  shows "trim b \<noteq> []"
proof -
  have "length (lower (trim a)) = length (lower (trim b))"
    using lower_trim_cong [OF assms(1)] by simp
  then have "length (trim a) = length (trim b)"
    by (simp add: lower_def)
  with assms(2) show ?thesis
    by auto
qed

lemma getOrCreate_fresh:
  "tag_ids_fresh db \<Longrightarrow> tag_ids_fresh (snd (getOrCreate n db))"
  by (auto simp: getOrCreate_def Let_def tag_ids_fresh_def list_all_iff split: option.splits)

lemma attach_each_fresh:
  "tag_ids_fresh db \<Longrightarrow> tag_ids_fresh (snd (attach_each i ns db))"
proof (induction ns arbitrary: db)
  case Nil
  then show ?case by simp
next
  case (Cons n ns)
  obtain res db' where g: "getOrCreate n db = (res, db')"
    by (cases "getOrCreate n db")
  with Cons.prems have f: "tag_ids_fresh db'"
    using getOrCreate_fresh [of db n] by simp
  show ?case
  proof (cases res)
    case (Inl e)
    with g f show ?thesis by simp
  next
    case (Inr t)
    from f have "tag_ids_fresh (link i (t_id t) db')"
      by (simp add: link_frame(4))
    with g Inr Cons.IH show ?thesis by simp
  qed
qed

lemma attach_fresh:
  "tag_ids_fresh db \<Longrightarrow> tag_ids_fresh (snd (attach i ns db))"
  using attach_each_fresh [of db i ns]
  by (auto simp: attach_def split: option.splits prod.splits sum.splits)

text \<open>
  C3. For a stored document and two names that are equal ignoring case (and valid:
  not blank, at most 50 characters), \<open>attach\<close> with the first name followed by \<open>attach\<close>
  with the second succeeds twice, and the second call leaves the database exactly as
  the first one left it: \<open>getOrCreate\<close> finds the tag of the first call and the
  association exists already. The document is associated with that tag; if it had no
  tag before (and tag ids are unique), it has exactly this one tag after either call.
\<close>

theorem attach_idempotent_up_to_case:
  assumes "find_document db d = Some row"
    and "lower name1 = lower name2"
    and "trim name1 \<noteq> []"
    and "length (trim name1) \<le> 50"
  shows "\<exists>t out1 out2 db1.
           attach d [name1] db = (Inr out1, db1)
         \<and> attach d [name2] db1 = (Inr out2, db1)
         \<and> out_tags out2 = out_tags out1
         \<and> lower (t_name t) = lower (trim name1)
         \<and> (d, t_id t) \<in> set (document_tags db1)
         \<and> (tag_ids_fresh db \<and> untagged db d \<longrightarrow> out_tags out1 = [t] \<and> out_tags out2 = [t])"
proof -
  obtain t db0 where g: "getOrCreate name1 db = (Inr t, db0)"
    and f: "find_tag db0 (trim name1) = Some t"
    and docs: "documents db0 = documents db"
    and pairs: "document_tags db0 = document_tags db"
    and fresh: "tag_ids_fresh db \<longrightarrow> tag_ids_fresh db0"
    using getOrCreate_ok [OF assms(3,4), of db] by blast
  let ?db1 = "link d (t_id t) db0"
  have row: "d_id row = d"
    using find_document_Some [OF assms(1)] by simp
  have first: "attach d [name1] db = (Inr (view ?db1 row), ?db1)"
    using assms(1) g by (simp add: attach_def)
  have doc1: "find_document ?db1 d = Some row"
    using assms(1) docs by (simp add: find_document_def link_frame(1))
  have ne2: "trim name2 \<noteq> []"
    using assms(2,3) by (rule trim_nonempty_cong)
  have "find_tag ?db1 (trim name2) = find_tag db0 (trim name1)"
    using find_tag_cong [OF lower_trim_cong [OF assms(2)], of db0] by (simp add: link_frame(3))
  with f have "find_tag ?db1 (trim name2) = Some t"
    by simp
  with ne2 have g2: "getOrCreate name2 ?db1 = (Inr t, ?db1)"
    by (rule getOrCreate_found)
  have again: "link d (t_id t) ?db1 = ?db1"
    by (rule link_again) (rule link_linked)
  have second: "attach d [name2] ?db1 = (Inr (view ?db1 row), ?db1)"
    using doc1 g2 again by (simp add: attach_def)
  have name: "lower (t_name t) = lower (trim name1)" and mem: "t \<in> set (tags db0)"
    using find_tag_Some [OF f] by simp_all
  have one: "out_tags (view ?db1 row) = [t]" if "tag_ids_fresh db" "untagged db d"
  proof -
    from that fresh have "tag_ids_fresh db0"
      by simp
    moreover from that(2) pairs have "untagged db0 d"
      by (simp add: untagged_def)
    ultimately have "tags_of ?db1 d = [t]"
      using mem by (intro tags_of_untagged_link)
    then show ?thesis
      by (simp add: view_def row)
  qed
  show ?thesis
    using first second name link_linked [of d "t_id t" db0] one by blast
qed

theorem attach_idempotent_up_to_case_witness:
  "lower ''Foo'' = lower ''foo'' \<and> trim ''Foo'' \<noteq> [] \<and> untagged report_db 1
   \<and> (\<exists>t out1 out2 db1.
         attach 1 [''Foo''] report_db = (Inr out1, db1)
       \<and> attach 1 [''foo''] db1 = (Inr out2, db1)
       \<and> lower (t_name t) = ''foo''
       \<and> out_tags out1 = [t] \<and> out_tags out2 = [t])"
proof -
  have h1: "find_document report_db 1 = Some (doc 1 ''report.pdf'' (Some ''hello world'') 1)"
    by (simp add: report_db_def db_of_def find_document_def doc_def)
  have h2: "lower ''Foo'' = lower ''foo''"
    by code_simp
  have h3: "trim ''Foo'' \<noteq> []"
    by code_simp
  have h4: "length (trim ''Foo'') \<le> 50"
    by code_simp
  have h5: "tag_ids_fresh report_db" "untagged report_db 1"
    by (simp_all add: report_db_def db_of_def tag_ids_fresh_def untagged_def)
  have l: "lower (trim ''Foo'') = ''foo''"
    by code_simp
  from attach_idempotent_up_to_case [OF h1 h2 h3 h4]
  obtain t out1 out2 db1 where "attach 1 [''Foo''] report_db = (Inr out1, db1)"
    and "attach 1 [''foo''] db1 = (Inr out2, db1)"
    and "lower (t_name t) = lower (trim ''Foo'')"
    and "tag_ids_fresh report_db \<and> untagged report_db 1 \<longrightarrow> out_tags out1 = [t] \<and> out_tags out2 = [t]"
    by blast
  with h5 l have "attach 1 [''Foo''] report_db = (Inr out1, db1)
       \<and> attach 1 [''foo''] db1 = (Inr out2, db1)
       \<and> lower (t_name t) = ''foo''
       \<and> out_tags out1 = [t] \<and> out_tags out2 = [t]"
    by simp
  then have "\<exists>t out1 out2 db1.
         attach 1 [''Foo''] report_db = (Inr out1, db1)
       \<and> attach 1 [''foo''] db1 = (Inr out2, db1)
       \<and> lower (t_name t) = ''foo''
       \<and> out_tags out1 = [t] \<and> out_tags out2 = [t]"
    by blast
  with h2 h3 h5 show ?thesis
    by blast
qed

end
